theory Spec2Isabelle
  imports Main "HOL-Library.Sublist"
begin

section \<open>Python strings\<close>

text \<open>
  A Python \<open>str\<close> is a sequence of Unicode characters. A \<open>string\<close> here holds the UTF-8
  encoding of the text, one byte in each \<open>char\<close>: ASCII text is the list of its
  characters, and a character outside ASCII takes two to four bytes, a leading byte
  followed by continuation bytes (0x80 to 0xBF); an unpaired surrogate, which a \<open>str\<close>
  may hold, is written like the other characters of its range, in three bytes.
  Searching for a text, splitting at an ASCII character and replacing one give the same
  result on the bytes as on the characters. The operations that look at a character as a
  whole (\<open>strip\<close>, \<open>split\<close> without argument, iteration) go through \<open>chars\<close>.
\<close>

definition is_cont :: "char \<Rightarrow> bool" where
  "is_cont c = (let n = (of_char c :: nat) in 128 \<le> n \<and> n \<le> 191)"

text \<open>\<open>chars s\<close> is the sequence of the characters of \<open>s\<close>, each one as its bytes.\<close>

function chars :: "string \<Rightarrow> string list" where
  "chars [] = []"
| "chars (c # cs) = (c # takeWhile is_cont cs) # chars (dropWhile is_cont cs)"
  by pat_completeness auto
termination
  by (relation "measure length") (simp_all add: length_dropWhile_le less_Suc_eq_le)

text \<open>
  \<open>str_lower s\<close> lowers the letters A-Z of \<open>s\<close>. It is \<open>s.lower()\<close> on ASCII text,
  and it stands for \<open>s.lower()\<close> where the code lowers a text to look in it for
  \<open>rate limit\<close>, \<open>429\<close>, \<open>/hotel\<close> or \<open>hotel\<close>: Python lowers letters outside
  ASCII too, but none to a part of these (two have ASCII letters in their lower case:
  U+0130 gives an \<open>i\<close> followed by a combining dot, U+212A gives \<open>k\<close>), so these
  tests give what they give in Python. Where the lowered text itself is used, \<open>lower\<close>
  below is \<open>s.lower()\<close>.
\<close>

definition char_lower :: "char \<Rightarrow> char" where
  "char_lower c = (let n = (of_char c :: nat) in if 65 \<le> n \<and> n \<le> 90 then char_of (n + 32) else c)"


definition str_lower :: "string \<Rightarrow> string" where
  "str_lower s = map char_lower s"

text \<open>\<open>startswith p s\<close> is Python's \<open>s.startswith(p)\<close>.\<close>

fun startswith :: "string \<Rightarrow> string \<Rightarrow> bool" where
  "startswith [] s = True"
| "startswith (p # ps) [] = False"
| "startswith (p # ps) (c # cs) = (p = c \<and> startswith ps cs)"

text \<open>\<open>str_contains p s\<close> is Python's \<open>p in s\<close> on two strings.\<close>

fun str_contains :: "string \<Rightarrow> string \<Rightarrow> bool" where
  "str_contains p [] = (p = [])"
| "str_contains p (c # cs) = (startswith p (c # cs) \<or> str_contains p cs)"

section \<open>RetryPolicy: \<open>handle_rate_limit\<close> (main.py)\<close>

text \<open>
  The decorated function is called with the same arguments at every attempt; what it does
  may differ from call to call. \<open>func k\<close> is the outcome of its invocation number \<open>k\<close>
  (counted from 0): it returns a value or raises an exception whose \<open>str(e)\<close> is given.
\<close>

datatype 'a outcome = Returns 'a | Raises string

definition max_retries :: nat where
  "max_retries = 5"

definition retry_delay :: nat where
  "retry_delay = 5"

definition is_rate_limit :: "string \<Rightarrow> bool" where
  "is_rate_limit e =
     (let error_str = str_lower e
      in str_contains ''rate limit'' error_str \<or> str_contains ''429'' error_str)"

definition exhausted :: string where
  "exhausted = ''Failed after 5 attempts due to rate limiting''"

text \<open>
  The result of the wrapper together with what it did: the number of invocations of the
  decorated function and the base waiting times \<open>retry_delay * 2 ^ attempt\<close> it slept
  (the random jitter in [0, 1] that is added to each is left out).
\<close>

record 'a wrapped =
  result :: "'a outcome"
  calls :: nat
  sleeps :: "nat list"

fun wrapper_loop :: "(nat \<Rightarrow> 'a outcome) \<Rightarrow> nat list \<Rightarrow> nat \<Rightarrow> nat list \<Rightarrow> 'a wrapped" where
  "wrapper_loop func [] n sl = \<lparr>result = Raises exhausted, calls = n, sleeps = sl\<rparr>"
| "wrapper_loop func (attempt # rest) n sl =
     (case func n of
        Returns v \<Rightarrow> \<lparr>result = Returns v, calls = Suc n, sleeps = sl\<rparr>
      | Raises e \<Rightarrow>
          if is_rate_limit e
          then wrapper_loop func rest (Suc n) (sl @ [retry_delay * 2 ^ attempt])
          else \<lparr>result = Raises e, calls = Suc n, sleeps = sl\<rparr>)"

definition wrapper :: "(nat \<Rightarrow> 'a outcome) \<Rightarrow> 'a wrapped" where
  "wrapper func = wrapper_loop func [0..<max_retries] 0 []"

text \<open>The base waiting times after \<open>k\<close> rate-limit errors in a row: 5, 10, 20, ...\<close>

definition backoff :: "nat \<Rightarrow> nat list" where
  "backoff k = map (\<lambda>attempt. retry_delay * 2 ^ attempt) [0..<k]"

text \<open>A call that hits the rate limit twice and then returns 7.\<close>

definition third_time_lucky :: "nat \<Rightarrow> nat outcome" where
  "third_time_lucky k =
     (if k < 2 then Raises ''Scrape API error: 429 - Too Many Requests'' else Returns 7)"

section \<open>More string operations\<close>

text \<open>
  The characters \<open>str.strip()\<close> and \<open>str.split()\<close> treat as whitespace, those for
  which \<open>str.isspace\<close> holds: U+0009 to U+000D, U+001C to U+0020, U+0085, U+00A0,
  U+1680, U+2000 to U+200A, U+2028, U+2029, U+202F, U+205F and U+3000.
\<close>

definition space_codes :: "string list" where
  "space_codes =
     [[CHR 0x09], [CHR 0x0A], [CHR 0x0B], [CHR 0x0C], [CHR 0x0D],
      [CHR 0x1C], [CHR 0x1D], [CHR 0x1E], [CHR 0x1F], [CHR 0x20],
      [CHR 0xC2, CHR 0x85], [CHR 0xC2, CHR 0xA0],
      [CHR 0xE1, CHR 0x9A, CHR 0x80],
      [CHR 0xE2, CHR 0x80, CHR 0x80], [CHR 0xE2, CHR 0x80, CHR 0x81],
      [CHR 0xE2, CHR 0x80, CHR 0x82], [CHR 0xE2, CHR 0x80, CHR 0x83],
      [CHR 0xE2, CHR 0x80, CHR 0x84], [CHR 0xE2, CHR 0x80, CHR 0x85],
      [CHR 0xE2, CHR 0x80, CHR 0x86], [CHR 0xE2, CHR 0x80, CHR 0x87],
      [CHR 0xE2, CHR 0x80, CHR 0x88], [CHR 0xE2, CHR 0x80, CHR 0x89],
      [CHR 0xE2, CHR 0x80, CHR 0x8A],
      [CHR 0xE2, CHR 0x80, CHR 0xA8], [CHR 0xE2, CHR 0x80, CHR 0xA9],
      [CHR 0xE2, CHR 0x80, CHR 0xAF], [CHR 0xE2, CHR 0x81, CHR 0x9F],
      [CHR 0xE3, CHR 0x80, CHR 0x80]]"

text \<open>\<open>is_space c\<close> is \<open>c.isspace()\<close> for one character \<open>c\<close>.\<close>

definition is_space :: "string \<Rightarrow> bool" where
  "is_space c = (c \<in> set space_codes)"

text \<open>\<open>str_strip s\<close> is \<open>s.strip()\<close>.\<close>

definition str_strip :: "string \<Rightarrow> string" where
  "str_strip s = concat (rev (dropWhile is_space (rev (dropWhile is_space (chars s)))))"

text \<open>\<open>split_ws s\<close> is \<open>s.split()\<close>: the maximal runs of characters that are not whitespace.\<close>

fun split_ws_acc :: "string \<Rightarrow> string list \<Rightarrow> string list" where
  "split_ws_acc cur [] = (if cur = [] then [] else [cur])"
| "split_ws_acc cur (c # cs) =
     (if is_space c
      then (if cur = [] then split_ws_acc [] cs else cur # split_ws_acc [] cs)
      else split_ws_acc (cur @ c) cs)"

definition split_ws :: "string \<Rightarrow> string list" where
  "split_ws s = split_ws_acc [] (chars s)"

text \<open>\<open>split_on c s\<close> is \<open>s.split(c)\<close> for a separator of one character.\<close>

fun split_acc :: "char \<Rightarrow> string \<Rightarrow> string \<Rightarrow> string list" where
  "split_acc c cur [] = [cur]"
| "split_acc c cur (x # xs) =
     (if x = c then cur # split_acc c [] xs else split_acc c (cur @ [x]) xs)"

definition split_on :: "char \<Rightarrow> string \<Rightarrow> string list" where
  "split_on c s = split_acc c [] s"

text \<open>\<open>str_join sep xs\<close> is \<open>sep.join(xs)\<close>.\<close>

fun str_join :: "string \<Rightarrow> string list \<Rightarrow> string" where
  "str_join sep [] = []"
| "str_join sep [x] = x"
| "str_join sep (x # y # ys) = x @ sep @ str_join sep (y # ys)"

text \<open>\<open>str_replace c r s\<close> is \<open>s.replace(c, r)\<close> for a \<open>c\<close> of one character.\<close>

definition str_replace :: "char \<Rightarrow> string \<Rightarrow> string \<Rightarrow> string" where
  "str_replace c r s = concat (map (\<lambda>x. if x = c then r else [x]) s)"

text \<open>
  \<open>capitalize\<close> is \<open>s.capitalize()\<close>. On ASCII text the first character is put in
  upper case and the others in lower case. On a text with a character outside ASCII the
  result is read from the case tables of the Unicode database of the Python runtime,
  which are not part of the program: the argument \<open>tables\<close> stands for what they give,
  and nothing is assumed of it.
\<close>

definition is_ascii :: "string \<Rightarrow> bool" where
  "is_ascii s = list_all (\<lambda>c. (of_char c :: nat) < 128) s"



text \<open>\<open>lower\<close> is \<open>s.lower()\<close>, with the same tables for a text outside ASCII.\<close>

definition lower :: "(string \<Rightarrow> string) \<Rightarrow> string \<Rightarrow> string" where
  "lower tables s = (if is_ascii s then str_lower s else tables s)"

section \<open>RecordValidator: \<open>validate_and_fix\<close> (hotel_scraper.py)\<close>

text \<open>
  The HTML parser is an external library. What \<open>validate_and_fix\<close> asks of the parsed
  page is three lookups, each of which finds something or not:
  \<^item> \<open>select_address\<close>: the text (\<open>get_text(strip=True)\<close>) of the first element of class
    \<open>hp_address_subtitle\<close>;
  \<^item> \<open>search_price\<close>: the first match, in the text of the page, of a currency sign
    followed by digits and commas and an optional two-digit fraction;
  \<^item> \<open>select_description\<close>: the text of the element with id
    \<open>property_description_content\<close>.
\<close>

record soup =
  select_address :: "string option"
  search_price :: "string option"
  select_description :: "string option"

text \<open>
  \<open>hotel_data\<close> is a \<open>Dict[str, Optional[str]]\<close>: \<open>hotel_data k\<close> is what
  \<open>hotel_data.get(k)\<close> returns, \<open>None\<close> for a missing key as for a key bound to
  \<open>None\<close>. The function returns a dictionary with the five keys below.
\<close>

record cleaned =
  name :: "string option"
  address :: "string option"
  price :: "string option"
  description :: "string option"
  url :: "string option"

text \<open>\<open>blank v\<close> is the test \<open>not v or not v.strip()\<close>.\<close>

definition blank :: "string option \<Rightarrow> bool" where
  "blank v = (case v of None \<Rightarrow> True | Some s \<Rightarrow> s = [] \<or> str_strip s = [])"

text \<open>The repair step: \<open>if (not v or not v.strip()) and soup: ... if found: v = text\<close>.\<close>

definition repair :: "string option \<Rightarrow> soup option \<Rightarrow> (soup \<Rightarrow> string option) \<Rightarrow> string option" where
  "repair v sp look =
     (case sp of
        None \<Rightarrow> v
      | Some page \<Rightarrow>
          if blank v then (case look page of None \<Rightarrow> v | Some t \<Rightarrow> Some t) else v)"

text \<open>\<open>v.strip() if v else None\<close>, and the same with another normalisation.\<close>

definition finish :: "(string \<Rightarrow> string) \<Rightarrow> string option \<Rightarrow> string option" where
  "finish norm v = (case v of None \<Rightarrow> None | Some s \<Rightarrow> if s = [] then None else Some (norm s))"

definition validate_and_fix ::
  "(string \<Rightarrow> soup) \<Rightarrow> string \<Rightarrow> (string \<rightharpoonup> string) \<Rightarrow> string option \<Rightarrow> cleaned" where
  "validate_and_fix BeautifulSoup hotel_name hotel_data raw_html =
     (let sp = (case raw_html of
                  None \<Rightarrow> None
                | Some h \<Rightarrow> if h = [] then None else Some (BeautifulSoup h));
          name0 = hotel_data ''name'';
          nm = (if blank name0 then hotel_name
                else (case name0 of None \<Rightarrow> hotel_name | Some n \<Rightarrow> str_strip n));
          addr = finish str_strip (repair (hotel_data ''address'') sp select_address);
          pr = finish str_strip (repair (hotel_data ''price'') sp search_price);
          descr = finish (\<lambda>d. str_strip (str_join '' '' (split_ws d)))
                    (repair (hotel_data ''description'') sp select_description)
      in \<lparr>name = Some nm, address = addr, price = pr, description = descr, url = None\<rparr>)"

text \<open>A page without markup: none of the three lookups finds anything.\<close>

definition no_markup :: "string \<Rightarrow> soup" where
  "no_markup h = \<lparr>select_address = None, search_price = None, select_description = None\<rparr>"

text \<open>A page on which each of the three lookups finds a text.\<close>

definition sample_page :: "string \<Rightarrow> soup" where
  "sample_page h = \<lparr>select_address = Some ''768 5th Ave, New York'', search_price = Some ''$450'',
     select_description = Some ''A  landmark hotel''\<rparr>"

text \<open>A page on which each of the three lookups finds an element with no text.\<close>

definition empty_texts :: "string \<Rightarrow> soup" where
  "empty_texts h = \<lparr>select_address = Some [], search_price = Some [], select_description = Some []\<rparr>"

section \<open>JSON values and Python's operations on them\<close>

text \<open>
  The responses of the crawl, scrape and completion services are loosely typed: the code
  probes them with \<open>in\<close>, \<open>[...]\<close>, \<open>.get\<close>, \<open>.lower()\<close> and iteration, and
  each of these raises on a value of the wrong type. A dictionary is a list of pairs with
  distinct keys, in insertion order. Numbers are integers here.
\<close>

datatype json =
    JNull
  | JBool bool
  | JNum int
  | JStr string
  | JArr "json list"
  | JObj "(string \<times> json) list"

datatype pyerr =
    TypeError
  | AttributeError
  | KeyError
  | IndexError
  | ValueError string
  | Exception string

text \<open>The truth value of \<open>v\<close> in \<open>if v\<close>, \<open>not v\<close> and \<open>v or d\<close>.\<close>

fun truthy :: "json \<Rightarrow> bool" where
  "truthy JNull = False"
| "truthy (JBool b) = b"
| "truthy (JNum n) = (n \<noteq> 0)"
| "truthy (JStr s) = (s \<noteq> [])"
| "truthy (JArr xs) = (xs \<noteq> [])"
| "truthy (JObj kvs) = (kvs \<noteq> [])"

text \<open>\<open>py_in k v\<close> is \<open>k in v\<close> for a string \<open>k\<close>.\<close>

fun py_in :: "string \<Rightarrow> json \<Rightarrow> pyerr + bool" where
  "py_in k (JObj kvs) = Inr (map_of kvs k \<noteq> None)"
| "py_in k (JArr xs) = Inr (JStr k \<in> set xs)"
| "py_in k (JStr s) = Inr (str_contains k s)"
| "py_in k v = Inl TypeError"

text \<open>\<open>py_getitem v k\<close> is \<open>v[k]\<close> for a string \<open>k\<close>.\<close>

fun py_getitem :: "json \<Rightarrow> string \<Rightarrow> pyerr + json" where
  "py_getitem (JObj kvs) k = (case map_of kvs k of None \<Rightarrow> Inl KeyError | Some v \<Rightarrow> Inr v)"
| "py_getitem v k = Inl TypeError"

text \<open>\<open>dict_get kvs k d\<close> is \<open>kvs.get(k, d)\<close> on a dictionary.\<close>

definition dict_get :: "(string \<times> json) list \<Rightarrow> string \<Rightarrow> json \<Rightarrow> json" where
  "dict_get kvs k d = (case map_of kvs k of None \<Rightarrow> d | Some v \<Rightarrow> v)"


text \<open>\<open>dict_set kvs k v\<close> is the dictionary after \<open>kvs[k] = v\<close>.\<close>

fun dict_set :: "(string \<times> json) list \<Rightarrow> string \<Rightarrow> json \<Rightarrow> (string \<times> json) list" where
  "dict_set [] k v = [(k, v)]"
| "dict_set ((k', v') # kvs) k v = (if k' = k then (k, v) # kvs else (k', v') # dict_set kvs k v)"

text \<open>
  \<open>py_iter v\<close> is the sequence \<open>for x in v\<close> runs through: the elements of a list, the
  keys of a dictionary, the characters of a string. \<open>len(v)\<close> raises on the same values.
\<close>

fun py_iter :: "json \<Rightarrow> pyerr + json list" where
  "py_iter (JArr xs) = Inr xs"
| "py_iter (JObj kvs) = Inr (map (\<lambda>kv. JStr (fst kv)) kvs)"
| "py_iter (JStr s) = Inr (map JStr (chars s))"
| "py_iter v = Inl TypeError"

text \<open>\<open>py_lower v\<close> is \<open>v.lower()\<close>.\<close>

fun py_lower :: "json \<Rightarrow> pyerr + string" where
  "py_lower (JStr s) = Inr (str_lower s)"
| "py_lower v = Inl AttributeError"

section \<open>The external services and the log\<close>

text \<open>
  The pipeline talks to three services: the crawl and the scrape operations of the
  Firecrawl client and the chat completion of the generator. A request names the
  operation and its arguments.
\<close>

datatype request =
    Crawl string
  | Scrape json
  | Completion string int

text \<open>
  The log records, in order, what a run did that can be seen from outside: the requests
  it made, the two messages that announce a fallback stage ("searching in raw response",
  "Using fallback hotel list...") and the pauses between two scrapes.
\<close>

datatype event =
    Call request
  | RawScan
  | FallbackList
  | Pause

text \<open>The patterns of \<open>_extract_address\<close> and \<open>_extract_price\<close>, in the order of the code.\<close>

datatype regex =
    AddressLabel
  | LocationLabel
  | PropertyAddress
  | PriceLabel
  | CurrencyCode
  | PerNight
  | RateLabel
  | DollarAmount

text \<open>
  What the code does not decide:
  \<^item> \<open>service\<close>: the answer to a request, which may depend on everything that happened
    before; it is a value or an exception. For a completion the answer stands for the
    content of the reply parsed by \<open>json.loads\<close>, and the exception for a failure of
    the call or of the parsing (both are inside the same \<open>try\<close>);
  \<^item> \<open>OPENAI_API_KEY\<close>: the variable of the environment;
  \<^item> \<open>url_findall\<close>: the URL-shaped substrings \<open>re.findall\<close> finds in \<open>json.dumps\<close> of
    the crawl result;
  \<^item> \<open>re_findall\<close>: \<open>re.findall\<close> for the patterns above (each has one group, so the
    matches are strings);
  \<^item> \<open>unicode_capitalize\<close> and \<open>unicode_lower\<close>: \<open>str.capitalize\<close> and
    \<open>str.lower\<close> on a text with a character outside ASCII.
\<close>

record world =
  service :: "event list \<Rightarrow> request \<Rightarrow> pyerr + json"
  OPENAI_API_KEY :: "string option"
  url_findall :: "json \<Rightarrow> string list"
  re_findall :: "regex \<Rightarrow> string \<Rightarrow> string list"
  unicode_capitalize :: "string \<Rightarrow> string"
  unicode_lower :: "string \<Rightarrow> string"

section \<open>The generator: create_list_of_hotels.py\<close>

definition MAX_CONCURRENT_REQUESTS :: nat where
  "MAX_CONCURRENT_REQUESTS = 2"

definition get_openai_client :: "world \<Rightarrow> pyerr + unit" where
  "get_openai_client w =
     (case OPENAI_API_KEY w of
        None \<Rightarrow> Inl (ValueError ''OPENAI_API_KEY not found in environment variables'')
      | Some api_key \<Rightarrow>
          if api_key = [] then Inl (ValueError ''OPENAI_API_KEY not found in environment variables'')
          else Inr ())"

definition validate_hotel_url :: "json \<Rightarrow> pyerr + bool" where
  "validate_hotel_url u =
     (if \<not> truthy u then Inr False
      else (case u of
              JStr s \<Rightarrow>
                if \<not> startswith ''https://www.booking.com/hotel/'' s then Inr False
                else if length (split_on CHR ''/'' s) < 5 then Inr False
                else Inr True
            | _ \<Rightarrow> Inl AttributeError))"

definition country_codes :: "(string \<times> string) list" where
  "country_codes =
     [(''united states'', ''us''), (''usa'', ''us''), (''united kingdom'', ''gb''), (''uk'', ''gb''),
      (''france'', ''fr''), (''spain'', ''es''), (''italy'', ''it''), (''germany'', ''de''),
      (''japan'', ''jp''), (''china'', ''cn''), (''australia'', ''au''), (''canada'', ''ca''),
      (''india'', ''in''), (''brazil'', ''br''), (''mexico'', ''mx''), (''singapore'', ''sg''),
      (''thailand'', ''th''), (''united arab emirates'', ''ae''), (''uae'', ''ae''),
      (''south africa'', ''za'')]"

definition get_country_code :: "world \<Rightarrow> string \<Rightarrow> string" where
  "get_country_code w country =
     (case map_of country_codes (lower (unicode_lower w) country) of None \<Rightarrow> ''us'' | Some code \<Rightarrow> code)"

text \<open>\<open>final_part parts\<close> is \<open>parts[-1]\<close>.\<close>

definition final_part :: "string list \<Rightarrow> pyerr + string" where
  "final_part parts = (case rev parts of [] \<Rightarrow> Inl IndexError | p # _ \<Rightarrow> Inr p)"

definition construct_booking_url :: "world \<Rightarrow> json \<Rightarrow> json \<Rightarrow> pyerr + string option" where
  "construct_booking_url w hotel_name loc =
     (if \<not> truthy hotel_name then Inr None
      else
        (case (if truthy loc
               then (case loc of
                       JStr l \<Rightarrow> (case final_part (split_on CHR '','' l) of
                                    Inl e \<Rightarrow> Inl e
                                  | Inr p \<Rightarrow> Inr (str_strip p))
                     | _ \<Rightarrow> Inl AttributeError)
               else Inr []) of
           Inl e \<Rightarrow> Inl e
         | Inr country \<Rightarrow>
             (case hotel_name of
                JStr n \<Rightarrow>
                  Inr (Some (''https://www.booking.com/hotel/'' @ get_country_code w country @ ''/'' @
                     str_replace CHR '','' [] (str_replace (CHR 0x27) []
                       (str_replace CHR '' '' ''-'' (lower (unicode_lower w) n))) @ ''.html''))
              | _ \<Rightarrow> Inl AttributeError)))"

text \<open>The loop over the hotels of the reply; \<open>validated_hotels\<close> is the accumulator.\<close>

fun validate_hotels :: "world \<Rightarrow> json list \<Rightarrow> json list \<Rightarrow> pyerr + json list" where
  "validate_hotels w [] validated_hotels = Inr validated_hotels"
| "validate_hotels w (hotel # rest) validated_hotels =
     (case hotel of
        JObj kvs \<Rightarrow>
          (case validate_hotel_url (dict_get kvs ''url'' (JStr [])) of
             Inl e \<Rightarrow> Inl e
           | Inr valid \<Rightarrow>
               if valid then validate_hotels w rest (validated_hotels @ [hotel])
               else
                 (case construct_booking_url w (dict_get kvs ''name'' (JStr []))
                         (dict_get kvs ''location'' (JStr [])) of
                    Inl e \<Rightarrow> Inl e
                  | Inr None \<Rightarrow> validate_hotels w rest validated_hotels
                  | Inr (Some fixed_url) \<Rightarrow>
                      if fixed_url \<noteq> []
                      then validate_hotels w rest
                             (validated_hotels @ [JObj (dict_set kvs ''url'' (JStr fixed_url))])
                      else validate_hotels w rest validated_hotels))
      | _ \<Rightarrow> Inl AttributeError)"

text \<open>The part of \<open>generate_hotel_list\<close> after the reply has been parsed.\<close>

definition read_hotels :: "world \<Rightarrow> json \<Rightarrow> pyerr + json list" where
  "read_hotels w res =
     (case py_in ''hotels'' res of
        Inl e \<Rightarrow> Inl e
      | Inr present \<Rightarrow>
          (case (if present then py_getitem res ''hotels'' else Inr res) of
             Inl e \<Rightarrow> Inl e
           | Inr hotels \<Rightarrow>
               (case py_iter hotels of
                  Inl e \<Rightarrow> Inl e
                | Inr hs \<Rightarrow> validate_hotels w hs [])))"

text \<open>
  \<open>generate_hotel_list\<close>: the client is made before the \<open>try\<close>, so its exception leaves
  the function; every exception after that is caught and gives the empty list.
\<close>

definition generate_hotel_list ::
  "world \<Rightarrow> string \<Rightarrow> int \<Rightarrow> event list \<Rightarrow> (pyerr + json list) \<times> event list" where
  "generate_hotel_list w loc num_hotels tr =
     (case get_openai_client w of
        Inl e \<Rightarrow> (Inl e, tr)
      | Inr client \<Rightarrow>
          (case service w tr (Completion loc num_hotels) of
             Inl e \<Rightarrow> (Inr [], tr @ [Call (Completion loc num_hotels)])
           | Inr res \<Rightarrow>
               (case read_hotels w res of
                  Inl e \<Rightarrow> (Inr [], tr @ [Call (Completion loc num_hotels)])
                | Inr validated_hotels \<Rightarrow>
                    (Inr validated_hotels, tr @ [Call (Completion loc num_hotels)]))))"

definition hotel_entry :: "string \<Rightarrow> string \<Rightarrow> string \<Rightarrow> json" where
  "hotel_entry n u l = JObj [(''name'', JStr n), (''url'', JStr u), (''location'', JStr l)]"

definition fallback_hotels :: "json list" where
  "fallback_hotels =
     [hotel_entry ''The Plaza'' ''https://www.booking.com/hotel/us/the-plaza.html'' ''New York, USA'',
      hotel_entry ''Waldorf Astoria'' ''https://www.booking.com/hotel/us/waldorf-astoria-new-york.html''
        ''New York, USA'',
      hotel_entry ''The Ritz London'' ''https://www.booking.com/hotel/gb/the-ritz-london.html''
        ''London, UK'',
      hotel_entry ''Marina Bay Sands'' ''https://www.booking.com/hotel/sg/marina-bay-sands.html''
        ''Singapore'',
      hotel_entry ''Burj Al Arab Jumeirah'' ''https://www.booking.com/hotel/ae/burj-al-arab.html''
        ''Dubai, UAE'']"

definition get_hotel_urls ::
  "world \<Rightarrow> string \<Rightarrow> int \<Rightarrow> event list \<Rightarrow> (pyerr + json list) \<times> event list" where
  "get_hotel_urls w loc num_hotels tr =
     (case generate_hotel_list w loc num_hotels tr of
        (Inl e, tr') \<Rightarrow> (Inl e, tr')
      | (Inr hotels, tr') \<Rightarrow>
          if hotels = [] then (Inr fallback_hotels, tr' @ [FallbackList])
          else (Inr hotels, tr'))"

definition get_hotel_urls_with_rate_limiting ::
  "world \<Rightarrow> string \<Rightarrow> int \<Rightarrow> event list \<Rightarrow> (pyerr + json list) \<times> event list" where
  "get_hotel_urls_with_rate_limiting w loc num_hotels tr =
     (case get_hotel_urls w loc num_hotels tr of
        (Inl e, tr') \<Rightarrow> (Inl e, tr')
      | (Inr hotels, tr') \<Rightarrow> (Inr (take MAX_CONCURRENT_REQUESTS hotels), tr'))"

section \<open>UrlDiscoverer: \<open>HotelURLCollector.collect_urls\<close> (main.py)\<close>

text \<open>The filter \<open>"/hotel" in u.lower() or "hotel" in u.lower()\<close>, on the lowered text.\<close>

definition is_hotel :: "string \<Rightarrow> bool" where
  "is_hotel l = (str_contains ''/hotel'' l \<or> str_contains ''hotel'' l)"

text \<open>The loop over \<open>result["pages"]\<close>.\<close>

fun pages_loop :: "json list \<Rightarrow> json list \<Rightarrow> pyerr + json list" where
  "pages_loop [] urls = Inr urls"
| "pages_loop (page # rest) urls =
     (case py_in ''url'' page of
        Inl e \<Rightarrow> Inl e
      | Inr present \<Rightarrow>
          if present
          then (case py_getitem page ''url'' of
                  Inl e \<Rightarrow> Inl e
                | Inr page_url \<Rightarrow>
                    (case py_lower page_url of
                       Inl e \<Rightarrow> Inl e
                     | Inr l \<Rightarrow>
                         if is_hotel l then pages_loop rest (urls @ [page_url])
                         else pages_loop rest urls))
          else pages_loop rest urls)"

definition pages_probe :: "json \<Rightarrow> pyerr + json list" where
  "pages_probe res =
     (case py_in ''pages'' res of
        Inl e \<Rightarrow> Inl e
      | Inr present \<Rightarrow>
          if present
          then (case py_getitem res ''pages'' of
                  Inl e \<Rightarrow> Inl e
                | Inr pages \<Rightarrow>
                    (case py_iter pages of
                       Inl e \<Rightarrow> Inl e
                     | Inr ps \<Rightarrow> pages_loop ps []))
          else Inr [])"

text \<open>The loop over \<open>data\<close> when it is a list, and the one over \<open>data["urls"]\<close>.\<close>

fun data_items_loop :: "json list \<Rightarrow> json list \<Rightarrow> pyerr + json list" where
  "data_items_loop [] urls = Inr urls"
| "data_items_loop (item # rest) urls =
     (case item of
        JObj kvs \<Rightarrow>
          (case map_of kvs ''url'' of
             None \<Rightarrow> data_items_loop rest urls
           | Some u \<Rightarrow>
               (case py_lower u of
                  Inl e \<Rightarrow> Inl e
                | Inr l \<Rightarrow>
                    if is_hotel l then data_items_loop rest (urls @ [u])
                    else data_items_loop rest urls))
      | _ \<Rightarrow> data_items_loop rest urls)"

fun data_urls_loop :: "json list \<Rightarrow> json list \<Rightarrow> pyerr + json list" where
  "data_urls_loop [] urls = Inr urls"
| "data_urls_loop (u # rest) urls =
     (case py_lower u of
        Inl e \<Rightarrow> Inl e
      | Inr l \<Rightarrow>
          if is_hotel l then data_urls_loop rest (urls @ [u])
          else data_urls_loop rest urls)"

definition data_probe :: "json \<Rightarrow> pyerr + json list" where
  "data_probe res =
     (case py_in ''data'' res of
        Inl e \<Rightarrow> Inl e
      | Inr present \<Rightarrow>
          if present
          then (case py_getitem res ''data'' of
                  Inl e \<Rightarrow> Inl e
                | Inr data \<Rightarrow>
                    (case data of
                       JArr items \<Rightarrow> data_items_loop items []
                     | JObj kvs \<Rightarrow>
                         (case map_of kvs ''urls'' of
                            None \<Rightarrow> Inr []
                          | Some us \<Rightarrow>
                              (case py_iter us of
                                 Inl e \<Rightarrow> Inl e
                               | Inr xs \<Rightarrow> data_urls_loop xs []))
                     | _ \<Rightarrow> Inr []))
          else Inr [])"

text \<open>
  Stage 1, the structured parse of the crawl result: the pages, and the \<open>data\<close> key when
  the pages gave nothing.
\<close>

definition structured_parse :: "json \<Rightarrow> pyerr + json list" where
  "structured_parse res =
     (case pages_probe res of
        Inl e \<Rightarrow> Inl e
      | Inr urls \<Rightarrow> if urls \<noteq> [] then Inr urls else data_probe res)"

text \<open>Stage 2, the scan of the raw response.\<close>

definition raw_scan :: "world \<Rightarrow> json \<Rightarrow> json list" where
  "raw_scan w res = map JStr (filter (\<lambda>u. is_hotel (str_lower u)) (url_findall w res))"

text \<open>\<open>[hotel["url"] for hotel in hotel_data]\<close>.\<close>

fun url_column :: "json list \<Rightarrow> pyerr + json list" where
  "url_column [] = Inr []"
| "url_column (hotel # rest) =
     (case py_getitem hotel ''url'' of
        Inl e \<Rightarrow> Inl e
      | Inr u \<Rightarrow> (case url_column rest of Inl e \<Rightarrow> Inl e | Inr us \<Rightarrow> Inr (u # us)))"

text \<open>Stages 3 and 4: the generator, and the URLs of what it returns.\<close>

definition generated_urls ::
  "world \<Rightarrow> string \<Rightarrow> int \<Rightarrow> event list \<Rightarrow> (pyerr + json list) \<times> event list" where
  "generated_urls w loc num_hotels tr =
     (case get_hotel_urls_with_rate_limiting w loc num_hotels tr of
        (Inl e, tr') \<Rightarrow> (Inl e, tr')
      | (Inr hotel_data, tr') \<Rightarrow> (url_column hotel_data, tr'))"

text \<open>The body of the \<open>try\<close> of \<open>collect_urls\<close>.\<close>

definition collect_urls_try ::
  "world \<Rightarrow> string \<Rightarrow> string \<Rightarrow> int \<Rightarrow> event list \<Rightarrow> (pyerr + json list) \<times> event list" where
  "collect_urls_try w start_url loc num_hotels tr =
     (case service w tr (Crawl start_url) of
        Inl e \<Rightarrow> (Inl e, tr @ [Call (Crawl start_url)])
      | Inr res \<Rightarrow>
          (case structured_parse res of
             Inl e \<Rightarrow> (Inl e, tr @ [Call (Crawl start_url)])
           | Inr urls \<Rightarrow>
               if urls \<noteq> [] then (Inr urls, tr @ [Call (Crawl start_url)])
               else if raw_scan w res \<noteq> []
               then (Inr (raw_scan w res), tr @ [Call (Crawl start_url), RawScan])
               else generated_urls w loc num_hotels (tr @ [Call (Crawl start_url), RawScan])))"

text \<open>\<open>collect_urls\<close>: on any exception of the body, the generator is asked (again).\<close>

definition collect_urls ::
  "world \<Rightarrow> string \<Rightarrow> string \<Rightarrow> int \<Rightarrow> event list \<Rightarrow> (pyerr + json list) \<times> event list" where
  "collect_urls w start_url loc num_hotels tr =
     (case collect_urls_try w start_url loc num_hotels tr of
        (Inr urls, tr') \<Rightarrow> (Inr urls, tr')
      | (Inl e, tr') \<Rightarrow> generated_urls w loc num_hotels tr')"

section \<open>PageCollector: \<open>HotelScraper\<close> (main.py)\<close>













section \<open>PipelineOrchestrator: \<open>HotelDataCollector.collect_data\<close> (main.py)\<close>









section \<open>Observations on a run, and sample worlds\<close>

text \<open>The events of the generation stage and of the hard-coded stage.\<close>

fun is_generation :: "event \<Rightarrow> bool" where
  "is_generation (Call (Completion l k)) = True"
| "is_generation FallbackList = True"
| "is_generation ev = False"






text \<open>A world in which every request fails and the generator has its key.\<close>

definition refuse :: "event list \<Rightarrow> request \<Rightarrow> pyerr + json" where
  "refuse tr req = Inl (Exception ''Connection refused'')"

definition no_urls :: "json \<Rightarrow> string list" where
  "no_urls res = []"

definition no_match :: "regex \<Rightarrow> string \<Rightarrow> string list" where
  "no_match p content = []"

text \<open>
  The case tables of the sample worlds have the one entry the examples read: the word
  \<open>elysee\<close> with an acute accent on its first letter (U+00E9), whose capitalised form
  begins with U+00C9. No example lowers a text outside ASCII.
\<close>

definition sample_tables :: "string \<Rightarrow> string" where
  "sample_tables s =
     (if s = [CHR 0xC3, CHR 0xA9] @ ''lysee'' then [CHR 0xC3, CHR 0x89] @ ''lysee'' else s)"

definition offline :: world where
  "offline = \<lparr>service = refuse, OPENAI_API_KEY = Some ''sk-test'', url_findall = no_urls,
     re_findall = no_match, unicode_capitalize = sample_tables,
     unicode_lower = sample_tables\<rparr>"

text \<open>The same world without \<open>OPENAI_API_KEY\<close>.\<close>

definition offline_no_key :: world where
  "offline_no_key = \<lparr>service = refuse, OPENAI_API_KEY = None, url_findall = no_urls,
     re_findall = no_match, unicode_capitalize = sample_tables,
     unicode_lower = sample_tables\<rparr>"



text \<open>
  A world in which the crawl finds one hotel page, every scrape returns a page with a
  title only, and the completion returns three hotels.
\<close>

fun titled_pages :: "event list \<Rightarrow> request \<Rightarrow> pyerr + json" where
  "titled_pages tr (Crawl s) =
     Inr (JObj [(''pages'', JArr [JObj [(''url'', JStr ''https://www.booking.com/hotel/us/the-plaza.html'')],
                                  JObj [(''url'', JStr ''https://www.booking.com/about.html'')]])])"
| "titled_pages tr (Scrape u) = Inr (JObj [(''title'', JStr ''The Plaza Hotel'')])"
| "titled_pages tr (Completion l k) =
     Inr (JObj [(''hotels'', JArr
       [hotel_entry ''Hotel A'' ''https://www.booking.com/hotel/fr/a.html'' ''Paris, France'',
        hotel_entry ''Hotel B'' ''not a url'' ''Paris, France'',
        hotel_entry ''Hotel C'' ''https://www.booking.com/hotel/fr/c.html'' ''Paris, France''])])"

definition online :: world where
  "online = \<lparr>service = titled_pages, OPENAI_API_KEY = Some ''sk-test'', url_findall = no_urls,
     re_findall = no_match, unicode_capitalize = sample_tables,
     unicode_lower = sample_tables\<rparr>"



section \<open>Properties of the retry wrapper\<close>

lemma wrapper_loop_calls_le:
  "calls (wrapper_loop func as n sl) \<le> n + length as"
proof (induction as arbitrary: n sl)
  case Nil
  show ?case by simp
next
  case (Cons a as)
  have "calls (wrapper_loop func as (Suc n) (sl @ [retry_delay * 2 ^ a])) \<le> Suc n + length as"
    by (rule Cons.IH)
  then show ?case by (simp split: outcome.splits)
qed

lemma wrapper_loop_calls_ge:
  "n \<le> calls (wrapper_loop func as n sl)"
proof (induction as arbitrary: n sl)
  case Nil
  show ?case by simp
next
  case (Cons a as)
  have "Suc n \<le> calls (wrapper_loop func as (Suc n) (sl @ [retry_delay * 2 ^ a]))"
    by (rule Cons.IH)
  then show ?case by (simp split: outcome.splits)
qed

lemma wrapper_loop_retried:
  "n \<le> k \<Longrightarrow> Suc k < calls (wrapper_loop func as n sl) \<Longrightarrow>
   \<exists>e. func k = Raises e \<and> is_rate_limit e"
proof (induction as arbitrary: n sl)
  case Nil
  then show ?case by simp
next
  case (Cons a as)
  show ?case
  proof (cases "func n")
    case (Returns v)
    with Cons.prems show ?thesis by simp
  next
    case (Raises e)
    show ?thesis
    proof (cases "is_rate_limit e")
      case False
      with Raises Cons.prems show ?thesis by simp
    next
      case True
      show ?thesis
      proof (cases "k = n")
        case True
        with Raises \<open>is_rate_limit e\<close> show ?thesis by simp
      next
        case False
        with Cons.prems have "Suc n \<le> k" by simp
        moreover from Cons.prems Raises True
        have "Suc k < calls (wrapper_loop func as (Suc n) (sl @ [retry_delay * 2 ^ a]))"
          by simp
        ultimately show ?thesis by (rule Cons.IH)
      qed
    qed
  qed
qed

lemma wrapper_loop_skip:
  "k \<le> m \<Longrightarrow> (\<forall>j<k. \<exists>e. func (n + j) = Raises e \<and> is_rate_limit e) \<Longrightarrow>
   wrapper_loop func [a..<a + m] n sl =
   wrapper_loop func [a + k..<a + m] (n + k) (sl @ map (\<lambda>attempt. retry_delay * 2 ^ attempt) [a..<a + k])"
proof (induction k arbitrary: a m n sl)
  case 0
  show ?case by simp
next
  case (Suc k)
  from Suc.prems obtain m' where m: "m = Suc m'" by (cases m) auto
  from Suc.prems(2) obtain e where e: "func n = Raises e" "is_rate_limit e"
    by (metis add.right_neutral zero_less_Suc)
  have rest: "\<forall>j<k. \<exists>e. func (Suc n + j) = Raises e \<and> is_rate_limit e"
    using Suc.prems(2) by (metis Suc_less_eq add_Suc_shift)
  have "wrapper_loop func [a..<a + m] n sl =
        wrapper_loop func [Suc a..<Suc a + m'] (Suc n) (sl @ [retry_delay * 2 ^ a])"
    using e m by (simp add: upt_rec [of a])
  also have "\<dots> = wrapper_loop func [Suc a + k..<Suc a + m'] (Suc n + k)
        ((sl @ [retry_delay * 2 ^ a]) @ map (\<lambda>attempt. retry_delay * 2 ^ attempt) [Suc a..<Suc a + k])"
    using Suc.prems(1) m rest by (intro Suc.IH) simp_all
  also have "\<dots> = wrapper_loop func [a + Suc k..<a + m] (n + Suc k)
        (sl @ map (\<lambda>attempt. retry_delay * 2 ^ attempt) [a..<a + Suc k])"
    using m by (simp add: upt_rec [of a])
  finally show ?case .
qed

lemma wrapper_after_rate_limits:
  assumes "k < 5" and "\<forall>j<k. \<exists>e. func j = Raises e \<and> is_rate_limit e"
  shows "wrapper func = wrapper_loop func [k..<5] k (backoff k)"
  using wrapper_loop_skip [of k 5 func 0 0 "[]"] assms
  by (simp add: wrapper_def max_retries_def backoff_def)

lemma wrapper_exhausted:
  assumes "\<forall>j<5. \<exists>e. func j = Raises e \<and> is_rate_limit e"
  shows "wrapper func = \<lparr>result = Raises exhausted, calls = 5, sleeps = backoff 5\<rparr>"
  using wrapper_loop_skip [of 5 5 func 0 0 "[]"] assms
  by (simp add: wrapper_def max_retries_def backoff_def)

text \<open>
  Claim C1. The wrapper retries after a rate-limit error and after nothing else.
  Invocation number \<open>k\<close> (from 0, below 5) takes place when every invocation before it
  raised an error with the rate-limit signal, and an invocation is followed by another
  one only if it raised such an error. When invocation \<open>k\<close> returns, the wrapper
  returns its value; when it raises an error without the signal, the wrapper raises that
  same error: in both cases after \<open>k + 1\<close> invocations and the \<open>k\<close> waits 5, 10, 20, ...
  In particular a first error without the signal is raised again at once, after exactly
  one invocation. There are never more than 5 invocations, and when all 5 raise
  rate-limit errors the wrapper raises its own "Failed after 5 attempts" exception, after
  5 waits.
\<close>

theorem retry_only_on_rate_limit:
  fixes func :: "nat \<Rightarrow> 'a outcome"
  shows "(\<forall>e. func 0 = Raises e \<and> \<not> is_rate_limit e \<longrightarrow>
            result (wrapper func) = Raises e \<and> calls (wrapper func) = 1)
       \<and> (\<forall>k. Suc k < calls (wrapper func) \<longrightarrow> (\<exists>e. func k = Raises e \<and> is_rate_limit e))
       \<and> calls (wrapper func) \<le> 5
       \<and> ((\<forall>k<5. \<exists>e. func k = Raises e \<and> is_rate_limit e) \<longrightarrow>
            result (wrapper func) = Raises exhausted \<and> calls (wrapper func) = 5)
       \<and> (\<forall>k<5. (\<forall>j<k. \<exists>e. func j = Raises e \<and> is_rate_limit e) \<longrightarrow> k < calls (wrapper func))
       \<and> (\<forall>k v. k < 5 \<and> (\<forall>j<k. \<exists>e. func j = Raises e \<and> is_rate_limit e) \<and> func k = Returns v \<longrightarrow>
            wrapper func = \<lparr>result = Returns v, calls = Suc k, sleeps = backoff k\<rparr>)
       \<and> (\<forall>k e. k < 5 \<and> (\<forall>j<k. \<exists>e. func j = Raises e \<and> is_rate_limit e)
                \<and> func k = Raises e \<and> \<not> is_rate_limit e \<longrightarrow>
            wrapper func = \<lparr>result = Raises e, calls = Suc k, sleeps = backoff k\<rparr>)
       \<and> ((\<forall>k<5. \<exists>e. func k = Raises e \<and> is_rate_limit e) \<longrightarrow> sleeps (wrapper func) = backoff 5)"
proof (intro conjI allI impI)
  fix e assume "func 0 = Raises e \<and> \<not> is_rate_limit e"
  then show "result (wrapper func) = Raises e" "calls (wrapper func) = 1"
    by (simp_all add: wrapper_def max_retries_def upt_rec)
next
  fix k assume "Suc k < calls (wrapper func)"
  then show "\<exists>e. func k = Raises e \<and> is_rate_limit e"
    unfolding wrapper_def by (intro wrapper_loop_retried [of 0 k]) simp_all
next
  show "calls (wrapper func) \<le> 5"
    using wrapper_loop_calls_le [of func "[0..<max_retries]" 0 "[]"]
    by (simp add: wrapper_def max_retries_def)
next
  assume a: "\<forall>k<5. \<exists>e. func k = Raises e \<and> is_rate_limit e"
  then show "result (wrapper func) = Raises exhausted" "calls (wrapper func) = 5"
    "sleeps (wrapper func) = backoff 5"
    by (simp_all add: wrapper_exhausted)
next
  fix k assume k: "k < 5" and a: "\<forall>j<k. \<exists>e. func j = Raises e \<and> is_rate_limit e"
  then have w: "wrapper func = wrapper_loop func [k..<5] k (backoff k)"
    by (rule wrapper_after_rate_limits)
  from k have u: "[k..<5] = k # [Suc k..<5]" by (simp add: upt_rec)
  have "Suc k \<le> calls (wrapper_loop func [Suc k..<5] (Suc k) (backoff k @ [retry_delay * 2 ^ k]))"
    by (rule wrapper_loop_calls_ge)
  then show "k < calls (wrapper func)"
    unfolding w u by (simp split: outcome.splits)
next
  fix k v
  assume a: "k < 5 \<and> (\<forall>j<k. \<exists>e. func j = Raises e \<and> is_rate_limit e) \<and> func k = Returns v"
  then have w: "wrapper func = wrapper_loop func [k..<5] k (backoff k)"
    by (intro wrapper_after_rate_limits) simp_all
  from a have u: "[k..<5] = k # [Suc k..<5]" by (simp add: upt_rec)
  from a show "wrapper func = \<lparr>result = Returns v, calls = Suc k, sleeps = backoff k\<rparr>"
    unfolding w u by simp
next
  fix k e
  assume a: "k < 5 \<and> (\<forall>j<k. \<exists>e. func j = Raises e \<and> is_rate_limit e)
                \<and> func k = Raises e \<and> \<not> is_rate_limit e"
  then have w: "wrapper func = wrapper_loop func [k..<5] k (backoff k)"
    by (intro wrapper_after_rate_limits) simp_all
  from a have u: "[k..<5] = k # [Suc k..<5]" by (simp add: upt_rec)
  from a show "wrapper func = \<lparr>result = Raises e, calls = Suc k, sleeps = backoff k\<rparr>"
    unfolding w u by simp
qed

lemma boom_not_rate_limit: "\<not> is_rate_limit ''Connection refused''" by code_simp
lemma too_many_rate_limit: "is_rate_limit ''Scrape API error: 429 - Too Many Requests''" by code_simp
lemma backoff_two: "backoff 2 = [5, 10]" by code_simp

lemma third_time_lucky_calls:
  "(\<forall>j<2. \<exists>e. third_time_lucky j = Raises e \<and> is_rate_limit e) \<and> third_time_lucky 2 = Returns 7"
  using too_many_rate_limit by (simp add: third_time_lucky_def)

theorem retry_only_on_rate_limit_witness:
  "result (wrapper (\<lambda>k. Raises ''Connection refused'' :: nat outcome)) = Raises ''Connection refused''
   \<and> calls (wrapper (\<lambda>k. Raises ''Connection refused'' :: nat outcome)) = 1
   \<and> result (wrapper (\<lambda>k. Raises ''Scrape API error: 429 - Too Many Requests'' :: nat outcome)) = Raises exhausted
   \<and> calls (wrapper (\<lambda>k. Raises ''Scrape API error: 429 - Too Many Requests'' :: nat outcome)) = 5
   \<and> wrapper third_time_lucky = \<lparr>result = Returns 7, calls = 3, sleeps = [5, 10]\<rparr>"
proof -
  have "result (wrapper (\<lambda>k. Raises ''Connection refused'' :: nat outcome)) = Raises ''Connection refused''
   \<and> calls (wrapper (\<lambda>k. Raises ''Connection refused'' :: nat outcome)) = 1"
    using retry_only_on_rate_limit [of "\<lambda>k. Raises ''Connection refused'' :: nat outcome"]
      boom_not_rate_limit by simp
  moreover have "result (wrapper (\<lambda>k. Raises ''Scrape API error: 429 - Too Many Requests'' :: nat outcome)) = Raises exhausted
   \<and> calls (wrapper (\<lambda>k. Raises ''Scrape API error: 429 - Too Many Requests'' :: nat outcome)) = 5"
    using retry_only_on_rate_limit [of "\<lambda>k. Raises ''Scrape API error: 429 - Too Many Requests'' :: nat outcome"]
      too_many_rate_limit by simp
  moreover have "wrapper third_time_lucky = \<lparr>result = Returns 7, calls = 3, sleeps = [5, 10]\<rparr>"
  proof -
    from retry_only_on_rate_limit [of third_time_lucky]
    have "(2::nat) < 5 \<and> (\<forall>j<2. \<exists>e. third_time_lucky j = Raises e \<and> is_rate_limit e)
            \<and> third_time_lucky 2 = Returns 7 \<longrightarrow>
          wrapper third_time_lucky = \<lparr>result = Returns 7, calls = Suc 2, sleeps = backoff 2\<rparr>"
      by blast
    with third_time_lucky_calls
    have "wrapper third_time_lucky = \<lparr>result = Returns 7, calls = Suc 2, sleeps = backoff 2\<rparr>"
      by simp
    then show ?thesis by (simp add: backoff_two)
  qed
  ultimately show ?thesis by blast
qed

section \<open>Properties of the validator\<close>

lemma chars_nonempty: "c \<in> set (chars s) \<Longrightarrow> c \<noteq> []"
  by (induction s arbitrary: c rule: chars.induct) auto

lemma concat_chars: "concat (chars s) = s"
  by (induction s rule: chars.induct) simp_all

lemma dropWhile_all_iff: "(\<forall>x\<in>set (dropWhile P s). P x) \<longleftrightarrow> (\<forall>x\<in>set s. P x)"
proof
  assume a: "\<forall>x\<in>set (dropWhile P s). P x"
  have "dropWhile P s = []"
  proof (rule ccontr)
    assume n: "dropWhile P s \<noteq> []"
    then have "\<not> P (hd (dropWhile P s))" by (rule hd_dropWhile)
    moreover from n have "hd (dropWhile P s) \<in> set (dropWhile P s)" by simp
    ultimately show False using a by blast
  qed
  then show "\<forall>x\<in>set s. P x" by (simp add: dropWhile_eq_Nil_conv)
next
  assume "\<forall>x\<in>set s. P x"
  then show "\<forall>x\<in>set (dropWhile P s). P x" by (meson set_dropWhileD)
qed

lemma concat_nonempty_parts: "(\<forall>x\<in>set xs. x \<noteq> []) \<Longrightarrow> concat xs = [] \<longleftrightarrow> xs = []"
  by (cases xs) auto

text \<open>A text is stripped to nothing exactly when all its characters are whitespace.\<close>

lemma str_strip_empty_iff: "str_strip s = [] \<longleftrightarrow> (\<forall>c\<in>set (chars s). is_space c)"
proof -
  let ?m = "dropWhile is_space (chars s)"
  let ?d = "dropWhile is_space (rev ?m)"
  have "\<forall>x\<in>set (rev ?d). x \<noteq> []"
    by (metis chars_nonempty set_dropWhileD set_rev)
  then have "str_strip s = [] \<longleftrightarrow> rev ?d = []"
    unfolding str_strip_def by (rule concat_nonempty_parts)
  also have "\<dots> \<longleftrightarrow> (\<forall>c\<in>set ?m. is_space c)"
    by (simp add: dropWhile_eq_Nil_conv)
  also have "\<dots> \<longleftrightarrow> (\<forall>c\<in>set (chars s). is_space c)"
    by (rule dropWhile_all_iff)
  finally show ?thesis .
qed

lemma str_strip_Nil: "str_strip [] = []"
  by (simp add: str_strip_def)

text \<open>What is stripped from a text is whitespace, at its two ends.\<close>

lemma str_strip_decompose:
  "\<exists>l r. s = concat l @ str_strip s @ concat r \<and> (\<forall>c\<in>set l. is_space c) \<and> (\<forall>c\<in>set r. is_space c)"
proof -
  let ?l = "takeWhile is_space (chars s)"
  let ?m = "dropWhile is_space (chars s)"
  let ?r = "rev (takeWhile is_space (rev ?m))"
  let ?k = "rev (dropWhile is_space (rev ?m))"
  have "?k @ ?r = rev (takeWhile is_space (rev ?m) @ dropWhile is_space (rev ?m))"
    by (simp only: rev_append)
  also have "\<dots> = rev (rev ?m)" by (simp only: takeWhile_dropWhile_id)
  finally have m: "?m = ?k @ ?r" by simp
  have "chars s = ?l @ ?m" by simp
  with m have "chars s = ?l @ ?k @ ?r" by simp
  then have "concat (chars s) = concat ?l @ concat ?k @ concat ?r"
    by (metis concat_append)
  then have "s = concat ?l @ str_strip s @ concat ?r"
    by (simp only: concat_chars str_strip_def)
  moreover have "\<forall>c\<in>set ?l. is_space c" by (meson set_takeWhileD)
  moreover have "\<forall>c\<in>set ?r. is_space c" by (metis set_rev set_takeWhileD)
  ultimately show ?thesis by blast
qed

text \<open>
  Claim C9. When the name of the initial record is missing, empty or made of whitespace
  only, the name of the output is the hotel name passed alongside the record; otherwise it
  is the name of the record with the whitespace at both ends removed, which is not empty.
\<close>

theorem validated_name:
  "((hotel_data ''name'' = None \<or>
       (\<exists>n. hotel_data ''name'' = Some n \<and> (\<forall>c\<in>set (chars n). is_space c))) \<longrightarrow>
      name (validate_and_fix BeautifulSoup hotel_name hotel_data raw_html) = Some hotel_name)
   \<and> (\<forall>n. hotel_data ''name'' = Some n \<and> \<not> (\<forall>c\<in>set (chars n). is_space c) \<longrightarrow>
      name (validate_and_fix BeautifulSoup hotel_name hotel_data raw_html) = Some (str_strip n)
      \<and> str_strip n \<noteq> [])"
proof (intro conjI allI impI)
  assume "hotel_data ''name'' = None \<or>
    (\<exists>n. hotel_data ''name'' = Some n \<and> (\<forall>c\<in>set (chars n). is_space c))"
  then have "blank (hotel_data ''name'')"
    by (auto simp: blank_def str_strip_empty_iff)
  then show "name (validate_and_fix BeautifulSoup hotel_name hotel_data raw_html) = Some hotel_name"
    by (simp add: validate_and_fix_def Let_def)
next
  fix n assume a: "hotel_data ''name'' = Some n \<and> \<not> (\<forall>c\<in>set (chars n). is_space c)"
  then have s: "str_strip n \<noteq> []" by (simp add: str_strip_empty_iff)
  then have "n \<noteq> []" using str_strip_Nil by auto
  with a s have "\<not> blank (hotel_data ''name'')" by (simp add: blank_def)
  with a show "name (validate_and_fix BeautifulSoup hotel_name hotel_data raw_html) = Some (str_strip n)"
    by (simp add: validate_and_fix_def Let_def)
  from s show "str_strip n \<noteq> []" .
qed

lemma blank_spaces: "\<forall>c\<in>set (chars ''  ''). is_space c"
  by code_simp

lemma ritz_not_spaces: "\<not> (\<forall>c\<in>set (chars '' The Ritz ''). is_space c)"
  by code_simp

lemma ritz_strip: "str_strip '' The Ritz '' = ''The Ritz''"
  by code_simp

lemma no_break_space: "\<forall>c\<in>set (chars [CHR 0xC2, CHR 0xA0]). is_space c"
  by code_simp

lemma ritz_no_break_not_spaces: "\<not> (\<forall>c\<in>set (chars (''The Ritz'' @ [CHR 0xC2, CHR 0xA0])). is_space c)"
  by code_simp

lemma ritz_no_break_strip: "str_strip (''The Ritz'' @ [CHR 0xC2, CHR 0xA0]) = ''The Ritz''"
  by code_simp

theorem validated_name_witness:
  "name (validate_and_fix no_markup ''The Plaza'' [''name'' \<mapsto> ''  ''] None) = Some ''The Plaza''
   \<and> name (validate_and_fix no_markup ''The Plaza'' [''name'' \<mapsto> '' The Ritz ''] None) = Some ''The Ritz''
   \<and> name (validate_and_fix no_markup ''The Plaza'' [''name'' \<mapsto> [CHR 0xC2, CHR 0xA0]] None) =
       Some ''The Plaza''
   \<and> name (validate_and_fix no_markup ''The Plaza'' [''name'' \<mapsto> ''The Ritz'' @ [CHR 0xC2, CHR 0xA0]] None) =
       Some ''The Ritz''"
  using validated_name [of "[''name'' \<mapsto> ''  '']" no_markup "''The Plaza''" None]
        validated_name [of "[''name'' \<mapsto> '' The Ritz '']" no_markup "''The Plaza''" None]
        validated_name [of "[''name'' \<mapsto> [CHR 0xC2, CHR 0xA0]]" no_markup "''The Plaza''" None]
        validated_name [of "[''name'' \<mapsto> ''The Ritz'' @ [CHR 0xC2, CHR 0xA0]]" no_markup "''The Plaza''" None]
        blank_spaces ritz_not_spaces ritz_strip no_break_space ritz_no_break_not_spaces
        ritz_no_break_strip
  by simp

lemma split_ws_acc_spaces: "\<forall>c\<in>set cs. is_space c \<Longrightarrow> split_ws_acc [] cs = []"
  by (induction cs) simp_all

lemma collapse_blank:
  assumes "str_strip s = []"
  shows "str_strip (str_join '' '' (split_ws s)) = []"
proof -
  from assms have "\<forall>c\<in>set (chars s). is_space c" by (simp only: str_strip_empty_iff)
  then have "split_ws s = []" unfolding split_ws_def by (rule split_ws_acc_spaces)
  then show ?thesis by (simp add: str_strip_Nil)
qed

lemma finish_repair_kept:
  assumes "v = Some s" and "str_strip s \<noteq> []"
  shows "finish norm (repair v sp look) = Some (norm s)"
proof -
  from assms(2) have "s \<noteq> []" using str_strip_Nil by auto
  with assms show ?thesis
    by (cases sp) (auto simp: finish_def repair_def blank_def)
qed

lemma finish_repair_recovered:
  "blank v \<Longrightarrow> sp = Some page \<Longrightarrow> look page = Some t \<Longrightarrow>
   finish norm (repair v sp look) = (if t = [] then None else Some (norm t))"
  by (simp add: finish_def repair_def)

lemma finish_repair_unrecovered:
  assumes "blank v"
    and "sp = None \<or> (\<exists>page. sp = Some page \<and> look page = None)"
    and "\<And>s. str_strip s = [] \<Longrightarrow> norm s = []"
  shows "finish norm (repair v sp look) =
           (case v of None \<Rightarrow> None | Some s \<Rightarrow> if s = [] then None else Some [])"
  using assms by (auto simp: finish_def repair_def blank_def split: option.splits)

lemma page_absent:
  "raw_html = None \<or> raw_html = Some [] \<or> (\<exists>h. raw_html = Some h \<and> look (B h) = None) \<Longrightarrow>
   (case raw_html of None \<Rightarrow> None | Some h \<Rightarrow> if h = [] then None else Some (B h)) = None \<or>
   (\<exists>page. (case raw_html of None \<Rightarrow> None | Some h \<Rightarrow> if h = [] then None else Some (B h)) = Some page \<and>
      look page = None)"
  by (auto split: option.splits)

text \<open>
  Claim C3, as amended. The result always has a name, and its url is always \<open>None\<close>
  (the caller fills it in afterwards). Each of address and price is:
  \<^item> the initial value with the whitespace at its two ends removed, when the initial
    value has a character that is not whitespace;
  \<^item> otherwise, when \<open>raw_html\<close> is not empty and the lookup finds a text in the page:
    that text with the whitespace at its two ends removed, or \<open>None\<close> when the text
    found is empty;
  \<^item> otherwise (no page, or nothing found in it): \<open>None\<close> when the initial value is
    missing, \<open>None\<close> or empty, and the empty string when the initial value is made of
    whitespace.

  The description follows the same three cases, with another normal form of the value
  kept or found: every run of whitespace inside it becomes one space, and the whitespace
  at its two ends is removed. There is no "not found" value.
\<close>

theorem validate_and_fix_fields:
  fixes BeautifulSoup hotel_name hotel_data raw_html
  defines "r \<equiv> validate_and_fix BeautifulSoup hotel_name hotel_data raw_html"
  defines "unfound \<equiv> (\<lambda>look. raw_html = None \<or> raw_html = Some [] \<or>
             (\<exists>h. raw_html = Some h \<and> look (BeautifulSoup h) = None))"
  shows "name r \<noteq> None \<and> url r = None
    \<and> (\<forall>a. hotel_data ''address'' = Some a \<and> str_strip a \<noteq> [] \<longrightarrow> address r = Some (str_strip a))
    \<and> (\<forall>h t. blank (hotel_data ''address'') \<and> raw_html = Some h \<and> h \<noteq> [] \<and>
            select_address (BeautifulSoup h) = Some t \<longrightarrow>
            address r = (if t = [] then None else Some (str_strip t)))
    \<and> (blank (hotel_data ''address'') \<and> unfound select_address \<longrightarrow>
            address r = (case hotel_data ''address'' of None \<Rightarrow> None
                       | Some s \<Rightarrow> if s = [] then None else Some []))
    \<and> (\<forall>a. hotel_data ''price'' = Some a \<and> str_strip a \<noteq> [] \<longrightarrow> price r = Some (str_strip a))
    \<and> (\<forall>h t. blank (hotel_data ''price'') \<and> raw_html = Some h \<and> h \<noteq> [] \<and>
            search_price (BeautifulSoup h) = Some t \<longrightarrow>
            price r = (if t = [] then None else Some (str_strip t)))
    \<and> (blank (hotel_data ''price'') \<and> unfound search_price \<longrightarrow>
            price r = (case hotel_data ''price'' of None \<Rightarrow> None
                       | Some s \<Rightarrow> if s = [] then None else Some []))
    \<and> (\<forall>a. hotel_data ''description'' = Some a \<and> str_strip a \<noteq> [] \<longrightarrow> description r = Some (str_strip (str_join '' '' (split_ws a))))
    \<and> (\<forall>h t. blank (hotel_data ''description'') \<and> raw_html = Some h \<and> h \<noteq> [] \<and>
            select_description (BeautifulSoup h) = Some t \<longrightarrow>
            description r = (if t = [] then None else Some (str_strip (str_join '' '' (split_ws t)))))
    \<and> (blank (hotel_data ''description'') \<and> unfound select_description \<longrightarrow>
            description r = (case hotel_data ''description'' of None \<Rightarrow> None
                       | Some s \<Rightarrow> if s = [] then None else Some []))"
proof -
  let ?sp = "case raw_html of None \<Rightarrow> None | Some h \<Rightarrow> if h = [] then None else Some (BeautifulSoup h)"
  have n: "name r \<noteq> None" "url r = None"
    by (simp_all add: r_def validate_and_fix_def Let_def)
  have a: "address r = finish str_strip (repair (hotel_data ''address'') ?sp select_address)"
    and p: "price r = finish str_strip (repair (hotel_data ''price'') ?sp search_price)"
    and d: "description r = finish (\<lambda>d. str_strip (str_join '' '' (split_ws d)))
              (repair (hotel_data ''description'') ?sp select_description)"
    by (simp_all add: r_def validate_and_fix_def Let_def)
  have kept: "finish norm (repair (hotel_data k) ?sp look) = Some (norm a)"
    if "hotel_data k = Some a \<and> str_strip a \<noteq> []" for k look a and norm :: "string \<Rightarrow> string"
    using that by (intro finish_repair_kept) simp_all
  have rec: "finish norm (repair (hotel_data k) ?sp look) = (if t = [] then None else Some (norm t))"
    if "blank (hotel_data k) \<and> raw_html = Some h \<and> h \<noteq> [] \<and>
      look (BeautifulSoup h) = Some t" for k look h t and norm :: "string \<Rightarrow> string"
    using that by (intro finish_repair_recovered [where page = "BeautifulSoup h"]) simp_all
  have unf: "finish norm (repair (hotel_data k) ?sp look) =
        (case hotel_data k of None \<Rightarrow> None | Some s \<Rightarrow> if s = [] then None else Some [])"
    if b: "blank (hotel_data k) \<and> unfound look" and nrm: "\<And>s. str_strip s = [] \<Longrightarrow> norm s = []"
    for k look and norm :: "string \<Rightarrow> string"
  proof -
    from b have "?sp = None \<or> (\<exists>page. ?sp = Some page \<and> look page = None)"
      unfolding unfound_def by (intro page_absent) simp
    with b nrm show ?thesis
      by (intro finish_repair_unrecovered) simp_all
  qed
  have A1: "\<forall>a. hotel_data ''address'' = Some a \<and> str_strip a \<noteq> [] \<longrightarrow> address r = Some (str_strip a)"
    unfolding a
  proof (intro allI impI)
    fix a assume h: "hotel_data ''address'' = Some a \<and> str_strip a \<noteq> []"
    then show "finish str_strip (repair (hotel_data ''address'') ?sp select_address) = Some (str_strip a)"
      by (rule kept)
  qed
  have A2: "\<forall>h t. blank (hotel_data ''address'') \<and> raw_html = Some h \<and> h \<noteq> [] \<and>
            select_address (BeautifulSoup h) = Some t \<longrightarrow> address r = (if t = [] then None else Some (str_strip t))"
    unfolding a
  proof (intro allI impI)
    fix h t assume h: "blank (hotel_data ''address'') \<and> raw_html = Some h \<and> h \<noteq> [] \<and>
            select_address (BeautifulSoup h) = Some t"
    then show "finish str_strip (repair (hotel_data ''address'') ?sp select_address) =
        (if t = [] then None else Some (str_strip t))"
      by (rule rec)
  qed
  have A3: "blank (hotel_data ''address'') \<and> unfound select_address \<longrightarrow>
            address r = (case hotel_data ''address'' of None \<Rightarrow> None | Some s \<Rightarrow> if s = [] then None else Some [])"
    unfolding a
  proof (intro impI)
    assume h: "blank (hotel_data ''address'') \<and> unfound select_address"
    then show "finish str_strip (repair (hotel_data ''address'') ?sp select_address) =
        (case hotel_data ''address'' of None \<Rightarrow> None | Some s \<Rightarrow> if s = [] then None else Some [])"
      by (rule unf) (simp_all add: collapse_blank)
  qed
  have P1: "\<forall>a. hotel_data ''price'' = Some a \<and> str_strip a \<noteq> [] \<longrightarrow> price r = Some (str_strip a)"
    unfolding p
  proof (intro allI impI)
    fix a assume h: "hotel_data ''price'' = Some a \<and> str_strip a \<noteq> []"
    then show "finish str_strip (repair (hotel_data ''price'') ?sp search_price) = Some (str_strip a)"
      by (rule kept)
  qed
  have P2: "\<forall>h t. blank (hotel_data ''price'') \<and> raw_html = Some h \<and> h \<noteq> [] \<and>
            search_price (BeautifulSoup h) = Some t \<longrightarrow> price r = (if t = [] then None else Some (str_strip t))"
    unfolding p
  proof (intro allI impI)
    fix h t assume h: "blank (hotel_data ''price'') \<and> raw_html = Some h \<and> h \<noteq> [] \<and>
            search_price (BeautifulSoup h) = Some t"
    then show "finish str_strip (repair (hotel_data ''price'') ?sp search_price) =
        (if t = [] then None else Some (str_strip t))"
      by (rule rec)
  qed
  have P3: "blank (hotel_data ''price'') \<and> unfound search_price \<longrightarrow>
            price r = (case hotel_data ''price'' of None \<Rightarrow> None | Some s \<Rightarrow> if s = [] then None else Some [])"
    unfolding p
  proof (intro impI)
    assume h: "blank (hotel_data ''price'') \<and> unfound search_price"
    then show "finish str_strip (repair (hotel_data ''price'') ?sp search_price) =
        (case hotel_data ''price'' of None \<Rightarrow> None | Some s \<Rightarrow> if s = [] then None else Some [])"
      by (rule unf) (simp_all add: collapse_blank)
  qed
  have D1: "\<forall>a. hotel_data ''description'' = Some a \<and> str_strip a \<noteq> [] \<longrightarrow> description r = Some (str_strip (str_join '' '' (split_ws a)))"
    unfolding d
  proof (intro allI impI)
    fix a assume h: "hotel_data ''description'' = Some a \<and> str_strip a \<noteq> []"
    then show "finish (\<lambda>d. str_strip (str_join '' '' (split_ws d))) (repair (hotel_data ''description'') ?sp select_description) = Some (str_strip (str_join '' '' (split_ws a)))"
      by (rule kept)
  qed
  have D2: "\<forall>h t. blank (hotel_data ''description'') \<and> raw_html = Some h \<and> h \<noteq> [] \<and>
            select_description (BeautifulSoup h) = Some t \<longrightarrow> description r = (if t = [] then None else Some (str_strip (str_join '' '' (split_ws t))))"
    unfolding d
  proof (intro allI impI)
    fix h t assume h: "blank (hotel_data ''description'') \<and> raw_html = Some h \<and> h \<noteq> [] \<and>
            select_description (BeautifulSoup h) = Some t"
    then show "finish (\<lambda>d. str_strip (str_join '' '' (split_ws d))) (repair (hotel_data ''description'') ?sp select_description) =
        (if t = [] then None else Some (str_strip (str_join '' '' (split_ws t))))"
      by (rule rec)
  qed
  have D3: "blank (hotel_data ''description'') \<and> unfound select_description \<longrightarrow>
            description r = (case hotel_data ''description'' of None \<Rightarrow> None | Some s \<Rightarrow> if s = [] then None else Some [])"
    unfolding d
  proof (intro impI)
    assume h: "blank (hotel_data ''description'') \<and> unfound select_description"
    then show "finish (\<lambda>d. str_strip (str_join '' '' (split_ws d))) (repair (hotel_data ''description'') ?sp select_description) =
        (case hotel_data ''description'' of None \<Rightarrow> None | Some s \<Rightarrow> if s = [] then None else Some [])"
      by (rule unf) (simp_all add: collapse_blank)
  qed
  from n A1 A2 A3 P1 P2 P3 D1 D2 D3 show ?thesis by (intro conjI)
qed

lemma sample_kept_price: "str_strip '' $99 '' = ''$99''"
  by code_simp

lemma sample_found_address: "str_strip ''768 5th Ave, New York'' = ''768 5th Ave, New York''"
  by code_simp

lemma sample_found_description:
  "str_strip (str_join '' '' (split_ws ''A  landmark hotel'')) = ''A landmark hotel''"
  by code_simp

lemma sample_kept_description:
  "str_strip ''A  grand   hotel'' \<noteq> []
   \<and> str_strip (str_join '' '' (split_ws ''A  grand   hotel'')) = ''A grand hotel''"
  by code_simp

lemma sample_blank_address: "str_strip [CHR 0xC2, CHR 0xA0] = [] \<and> str_strip '' '' = []"
  by code_simp

theorem validate_and_fix_fields_witness:
  "address (validate_and_fix sample_page ''The Plaza'' [''name'' \<mapsto> '''', ''price'' \<mapsto> '' $99 '']
      (Some ''<html></html>'')) = Some ''768 5th Ave, New York''
   \<and> price (validate_and_fix sample_page ''The Plaza'' [''name'' \<mapsto> '''', ''price'' \<mapsto> '' $99 '']
      (Some ''<html></html>'')) = Some ''$99''
   \<and> description (validate_and_fix sample_page ''The Plaza'' [''name'' \<mapsto> '''', ''price'' \<mapsto> '' $99 '']
      (Some ''<html></html>'')) = Some ''A landmark hotel''
   \<and> description (validate_and_fix sample_page ''The Plaza'' [''name'' \<mapsto> ''''] None) = None
   \<and> description (validate_and_fix no_markup ''The Plaza'' [''description'' \<mapsto> ''A  grand   hotel'']
      None) = Some ''A grand hotel''
   \<and> address (validate_and_fix no_markup ''The Plaza'' [''address'' \<mapsto> [CHR 0xC2, CHR 0xA0]]
      None) = Some []
   \<and> address (validate_and_fix empty_texts ''The Plaza'' [''address'' \<mapsto> '' '']
      (Some ''<html></html>'')) = None"
  using validate_and_fix_fields [of sample_page "''The Plaza''"
          "[''name'' \<mapsto> '''', ''price'' \<mapsto> '' $99 '']" "Some ''<html></html>''"]
        validate_and_fix_fields [of sample_page "''The Plaza''" "[''name'' \<mapsto> '''']" None]
        validate_and_fix_fields [of no_markup "''The Plaza''"
          "[''description'' \<mapsto> ''A  grand   hotel'']" None]
        validate_and_fix_fields [of no_markup "''The Plaza''"
          "[''address'' \<mapsto> [CHR 0xC2, CHR 0xA0]]" None]
        validate_and_fix_fields [of empty_texts "''The Plaza''" "[''address'' \<mapsto> '' '']"
          "Some ''<html></html>''"]
        sample_kept_price sample_found_address sample_found_description sample_kept_description
        sample_blank_address
  by (simp add: blank_def sample_page_def empty_texts_def)

text \<open>
  Claim C3 as stated fails: for a record without address and a page that is the plain
  text "Address: 123 Main St, Springfield", the address of the result is \<open>None\<close>, and
  so is its url.
\<close>

theorem validate_and_fix_absent_fields:
  "address (validate_and_fix no_markup ''The Plaza'' [''name'' \<mapsto> '''']
      (Some ''Address: 123 Main St, Springfield'')) = None
   \<and> url (validate_and_fix no_markup ''The Plaza'' [''name'' \<mapsto> '''']
      (Some ''Address: 123 Main St, Springfield'')) = None"
  by (simp add: validate_and_fix_def Let_def no_markup_def repair_def finish_def blank_def)

section \<open>Properties of discovery\<close>

lemma generate_hotel_list_cases:
  obtains (no_key) e where "get_openai_client w = Inl e"
      "generate_hotel_list w loc n tr = (Inl e, tr)"
  | (asked) hs where "get_openai_client w = Inr ()"
      "generate_hotel_list w loc n tr = (Inr hs, tr @ [Call (Completion loc n)])"
proof (cases "get_openai_client w")
  case (Inl e)
  then have "generate_hotel_list w loc n tr = (Inl e, tr)"
    by (simp add: generate_hotel_list_def)
  with Inl that(1) show ?thesis by blast
next
  case (Inr u)
  then have k: "get_openai_client w = Inr ()" by simp
  have "\<exists>hs. generate_hotel_list w loc n tr = (Inr hs, tr @ [Call (Completion loc n)])"
    using k by (simp add: generate_hotel_list_def split: sum.splits)
  with k that(2) show ?thesis by blast
qed

lemma generated_urls_cases:
  obtains (no_key) e where "get_openai_client w = Inl e"
      "generated_urls w loc n tr = (Inl e, tr)"
  | (generated) hs where "get_openai_client w = Inr ()"
      "generate_hotel_list w loc n tr = (Inr hs, tr @ [Call (Completion loc n)])" "hs \<noteq> []"
      "generated_urls w loc n tr =
         (url_column (take MAX_CONCURRENT_REQUESTS hs), tr @ [Call (Completion loc n)])"
  | (fallback) "get_openai_client w = Inr ()"
      "generate_hotel_list w loc n tr = (Inr [], tr @ [Call (Completion loc n)])"
      "generated_urls w loc n tr =
         (url_column (take MAX_CONCURRENT_REQUESTS fallback_hotels),
          tr @ [Call (Completion loc n), FallbackList])"
proof (cases rule: generate_hotel_list_cases [of w loc n tr])
  case (no_key e)
  then have "generated_urls w loc n tr = (Inl e, tr)"
    by (simp add: generated_urls_def get_hotel_urls_with_rate_limiting_def get_hotel_urls_def)
  with no_key that(1) show ?thesis by blast
next
  case (asked hs)
  show ?thesis
  proof (cases "hs = []")
    case True
    with asked have "generated_urls w loc n tr =
         (url_column (take MAX_CONCURRENT_REQUESTS fallback_hotels),
          tr @ [Call (Completion loc n), FallbackList])"
      by (simp add: generated_urls_def get_hotel_urls_with_rate_limiting_def get_hotel_urls_def)
    with asked True that(3) show ?thesis by blast
  next
    case False
    with asked have "generated_urls w loc n tr =
         (url_column (take MAX_CONCURRENT_REQUESTS hs), tr @ [Call (Completion loc n)])"
      by (simp add: generated_urls_def get_hotel_urls_with_rate_limiting_def get_hotel_urls_def)
    with asked False that(2) show ?thesis by blast
  qed
qed

lemma url_column_length: "url_column hs = Inr us \<Longrightarrow> length us = length hs"
  by (induction hs arbitrary: us) (auto split: sum.splits)

lemma generated_urls_length:
  assumes "generated_urls w loc n tr = (Inr us, tr')"
  shows "length us \<le> 2"
proof (cases rule: generated_urls_cases [of w loc n tr])
  case (no_key e)
  with assms show ?thesis by simp
next
  case (generated hs)
  with assms have "url_column (take MAX_CONCURRENT_REQUESTS hs) = Inr us" by simp
  then have "length us = length (take MAX_CONCURRENT_REQUESTS hs)" by (rule url_column_length)
  then show ?thesis by (simp add: MAX_CONCURRENT_REQUESTS_def)
next
  case fallback
  with assms have "url_column (take MAX_CONCURRENT_REQUESTS fallback_hotels) = Inr us" by simp
  then have "length us = length (take MAX_CONCURRENT_REQUESTS fallback_hotels)" by (rule url_column_length)
  then show ?thesis by (simp add: MAX_CONCURRENT_REQUESTS_def)
qed

lemma collect_urls_cases:
  obtains (stage1) res urls where "service w tr (Crawl s) = Inr res"
      "structured_parse res = Inr urls" "urls \<noteq> []"
      "collect_urls w s loc n tr = (Inr urls, tr @ [Call (Crawl s)])"
  | (stage2) res where "service w tr (Crawl s) = Inr res"
      "structured_parse res = Inr []" "raw_scan w res \<noteq> []"
      "collect_urls w s loc n tr = (Inr (raw_scan w res), tr @ [Call (Crawl s), RawScan])"
  | (stage3) res us t where "service w tr (Crawl s) = Inr res"
      "structured_parse res = Inr []" "raw_scan w res = []"
      "generated_urls w loc n (tr @ [Call (Crawl s), RawScan]) = (Inr us, t)"
      "collect_urls w s loc n tr = (Inr us, t)"
  | (stage3_raised) res e t where "service w tr (Crawl s) = Inr res"
      "structured_parse res = Inr []" "raw_scan w res = []"
      "generated_urls w loc n (tr @ [Call (Crawl s), RawScan]) = (Inl e, t)"
      "collect_urls w s loc n tr = generated_urls w loc n t"
  | (crawl_raised) e where "service w tr (Crawl s) = Inl e"
      "collect_urls w s loc n tr = generated_urls w loc n (tr @ [Call (Crawl s)])"
  | (parse_raised) res e where "service w tr (Crawl s) = Inr res"
      "structured_parse res = Inl e"
      "collect_urls w s loc n tr = generated_urls w loc n (tr @ [Call (Crawl s)])"
proof (cases "service w tr (Crawl s)")
  case (Inl e)
  then have "collect_urls w s loc n tr = generated_urls w loc n (tr @ [Call (Crawl s)])"
    by (simp add: collect_urls_def collect_urls_try_def)
  with Inl that(5) show ?thesis by blast
next
  case (Inr res)
  show ?thesis
  proof (cases "structured_parse res")
    case (Inl e)
    with Inr have "collect_urls w s loc n tr = generated_urls w loc n (tr @ [Call (Crawl s)])"
      by (simp add: collect_urls_def collect_urls_try_def)
    with Inr Inl that(6) show ?thesis by blast
  next
    case urls: (Inr urls)
    show ?thesis
    proof (cases "urls = []")
      case False
      with Inr urls have "collect_urls w s loc n tr = (Inr urls, tr @ [Call (Crawl s)])"
        by (simp add: collect_urls_def collect_urls_try_def)
      with Inr urls False that(1) show ?thesis by blast
    next
      case True
      show ?thesis
      proof (cases "raw_scan w res = []")
        case False
        with Inr urls True
        have "collect_urls w s loc n tr = (Inr (raw_scan w res), tr @ [Call (Crawl s), RawScan])"
          by (simp add: collect_urls_def collect_urls_try_def)
        with Inr urls True False that(2) show ?thesis by blast
      next
        case empty: True
        obtain r t where g: "generated_urls w loc n (tr @ [Call (Crawl s), RawScan]) = (r, t)"
          by (cases "generated_urls w loc n (tr @ [Call (Crawl s), RawScan])") blast
        show ?thesis
        proof (cases r)
          case (Inl e)
          with Inr urls True empty g
          have "collect_urls w s loc n tr = generated_urls w loc n t"
            by (simp add: collect_urls_def collect_urls_try_def)
          with Inr urls True empty g Inl that(4) show ?thesis by blast
        next
          case us: (Inr us)
          with Inr urls True empty g
          have "collect_urls w s loc n tr = (Inr us, t)"
            by (simp add: collect_urls_def collect_urls_try_def)
          with Inr urls True empty g us that(3) show ?thesis by blast
        qed
      qed
    qed
  qed
qed







text \<open>
  Claim C10. Whatever the location and the number of hotels asked for,
  \<open>get_hotel_urls_with_rate_limiting\<close> returns at most \<open>MAX_CONCURRENT_REQUESTS\<close> = 2
  entries; so whenever the generation stage or the hard-coded list supplies the result of
  \<open>collect_urls\<close>, that result has at most 2 URLs.
\<close>

theorem generation_supplies_at_most_two:
  "(\<forall>hotels tr'. get_hotel_urls_with_rate_limiting w loc n tr = (Inr hotels, tr') \<longrightarrow>
       length hotels \<le> MAX_CONCURRENT_REQUESTS \<and> length hotels \<le> 2)
   \<and> (\<forall>urls new. collect_urls w s loc n tr = (Inr urls, tr @ new) \<and> (\<exists>ev\<in>set new. is_generation ev) \<longrightarrow>
       length urls \<le> 2)"
proof (intro conjI allI impI)
  fix hotels tr'
  assume "get_hotel_urls_with_rate_limiting w loc n tr = (Inr hotels, tr')"
  then have "\<exists>hs. hotels = take MAX_CONCURRENT_REQUESTS hs"
    by (auto simp: get_hotel_urls_with_rate_limiting_def split: prod.splits sum.splits)
  then show "length hotels \<le> MAX_CONCURRENT_REQUESTS" "length hotels \<le> 2"
    by (auto simp: MAX_CONCURRENT_REQUESTS_def)
next
  fix urls new
  assume a: "collect_urls w s loc n tr = (Inr urls, tr @ new) \<and> (\<exists>ev\<in>set new. is_generation ev)"
  show "length urls \<le> 2"
  proof (cases rule: collect_urls_cases [of w tr s loc n])
    case (stage1 res urls')
    with a have "new = [Call (Crawl s)]" by simp
    with a show ?thesis by simp
  next
    case (stage2 res)
    with a have "new = [Call (Crawl s), RawScan]" by simp
    with a show ?thesis by simp
  next
    case (stage3 res us t)
    with a have "generated_urls w loc n (tr @ [Call (Crawl s), RawScan]) = (Inr urls, t)" by simp
    then show ?thesis by (rule generated_urls_length)
  next
    case (stage3_raised res e t)
    with a have "generated_urls w loc n t = (Inr urls, tr @ new)" by simp
    then show ?thesis by (rule generated_urls_length)
  next
    case (crawl_raised e)
    with a have "generated_urls w loc n (tr @ [Call (Crawl s)]) = (Inr urls, tr @ new)" by simp
    then show ?thesis by (rule generated_urls_length)
  next
    case (parse_raised res e)
    with a have "generated_urls w loc n (tr @ [Call (Crawl s)]) = (Inr urls, tr @ new)" by simp
    then show ?thesis by (rule generated_urls_length)
  qed
qed

lemma online_generation:
  "get_hotel_urls_with_rate_limiting online ''Paris'' 10 [] =
     (Inr [hotel_entry ''Hotel A'' ''https://www.booking.com/hotel/fr/a.html'' ''Paris, France'',
           hotel_entry ''Hotel B'' ''https://www.booking.com/hotel/fr/hotel-b.html'' ''Paris, France''],
      [Call (Completion ''Paris'' 10)])"
  by code_simp

lemma offline_discovery:
  "collect_urls offline ''https://www.top10hotels.com/'' ''worldwide'' 5 [] =
     (Inr [JStr ''https://www.booking.com/hotel/us/the-plaza.html'',
           JStr ''https://www.booking.com/hotel/us/waldorf-astoria-new-york.html''],
      [] @ [Call (Crawl ''https://www.top10hotels.com/''), Call (Completion ''worldwide'' 5), FallbackList])"
  by code_simp

theorem generation_supplies_at_most_two_witness:
  "length [hotel_entry ''Hotel A'' ''https://www.booking.com/hotel/fr/a.html'' ''Paris, France'',
           hotel_entry ''Hotel B'' ''https://www.booking.com/hotel/fr/hotel-b.html'' ''Paris, France'']
     \<le> MAX_CONCURRENT_REQUESTS
   \<and> length (case fst (collect_urls offline ''https://www.top10hotels.com/'' ''worldwide'' 5 []) of
               Inr urls \<Rightarrow> urls | Inl e \<Rightarrow> []) = 2"
  using generation_supplies_at_most_two [of online "''Paris''" 10 "[]"] online_generation
    generation_supplies_at_most_two [of offline "''worldwide''" 5 "[]" "''https://www.top10hotels.com/''"]
    offline_discovery
  by simp

lemma valid_url_present:
  "validate_hotel_url (dict_get kvs ''url'' (JStr [])) = Inr True \<Longrightarrow> \<exists>v. map_of kvs ''url'' = Some v"
  by (cases "map_of kvs ''url''") (simp_all add: dict_get_def validate_hotel_url_def)

lemma dict_set_lookup: "map_of (dict_set kvs k v) k = Some v"
  by (induction kvs) auto

lemma validate_hotels_urls:
  "validate_hotels w hs acc = Inr out \<Longrightarrow> \<forall>h\<in>set acc. \<exists>v. py_getitem h ''url'' = Inr v \<Longrightarrow>
   \<forall>h\<in>set out. \<exists>v. py_getitem h ''url'' = Inr v"
proof (induction hs arbitrary: acc)
  case Nil
  then show ?case by simp
next
  case (Cons hotel rest)
  from Cons.prems(1) obtain kvs where h: "hotel = JObj kvs"
    by (cases hotel) simp_all
  from Cons.prems(1) h obtain valid where v: "validate_hotel_url (dict_get kvs ''url'' (JStr [])) = Inr valid"
    by (cases "validate_hotel_url (dict_get kvs ''url'' (JStr []))") simp_all
  show ?case
  proof (cases valid)
    case True
    with v have "\<exists>x. map_of kvs ''url'' = Some x" by (simp add: valid_url_present)
    with h have "\<exists>x. py_getitem hotel ''url'' = Inr x" by auto
    with Cons.prems(2) have "\<forall>h\<in>set (acc @ [hotel]). \<exists>v. py_getitem h ''url'' = Inr v" by simp
    moreover from Cons.prems(1) h v True have "validate_hotels w rest (acc @ [hotel]) = Inr out" by simp
    ultimately show ?thesis by (intro Cons.IH)
  next
    case False
    from Cons.prems(1) h v False obtain fixed where
      c: "construct_booking_url w (dict_get kvs ''name'' (JStr [])) (dict_get kvs ''location'' (JStr [])) = Inr fixed"
      by (cases "construct_booking_url w (dict_get kvs ''name'' (JStr [])) (dict_get kvs ''location'' (JStr []))") simp_all
    show ?thesis
    proof (cases "\<exists>u. fixed = Some u \<and> u \<noteq> []")
      case True
      then obtain u where u: "fixed = Some u" "u \<noteq> []" by blast
      have "py_getitem (JObj (dict_set kvs ''url'' (JStr u))) ''url'' = Inr (JStr u)"
        by (simp add: dict_set_lookup)
      with Cons.prems(2)
      have "\<forall>h\<in>set (acc @ [JObj (dict_set kvs ''url'' (JStr u))]). \<exists>v. py_getitem h ''url'' = Inr v"
        by auto
      moreover from Cons.prems(1) h v False c u
      have "validate_hotels w rest (acc @ [JObj (dict_set kvs ''url'' (JStr u))]) = Inr out" by simp
      ultimately show ?thesis by (intro Cons.IH)
    next
      case no: False
      with Cons.prems(1) h v False c have "validate_hotels w rest acc = Inr out"
        by (cases fixed) (auto split: if_splits)
      with Cons.prems(2) show ?thesis by (intro Cons.IH)
    qed
  qed
qed

lemma url_column_total:
  "\<forall>h\<in>set hs. \<exists>v. py_getitem h ''url'' = Inr v \<Longrightarrow> \<exists>us. url_column hs = Inr us"
  by (induction hs) auto

lemma generate_hotel_list_urls:
  assumes "generate_hotel_list w loc n tr = (Inr hs, t)"
  shows "\<forall>h\<in>set hs. \<exists>v. py_getitem h ''url'' = Inr v"
proof (cases "hs = []")
  case True
  then show ?thesis by simp
next
  case False
  with assms obtain res where "read_hotels w res = Inr hs"
    by (auto simp: generate_hotel_list_def split: sum.splits)
  then obtain xs where "validate_hotels w xs [] = Inr hs"
    by (auto simp: read_hotels_def split: sum.splits)
  then show ?thesis by (rule validate_hotels_urls) simp
qed

lemma fallback_hotels_urls: "\<forall>h\<in>set fallback_hotels. \<exists>v. py_getitem h ''url'' = Inr v"
  by (simp add: fallback_hotels_def hotel_entry_def)

lemma generated_urls_total:
  assumes "get_openai_client w = Inr ()"
  shows "\<exists>us t. generated_urls w loc n tr = (Inr us, t)"
proof (cases rule: generated_urls_cases [of w loc n tr])
  case (no_key e)
  with assms show ?thesis by simp
next
  case (generated hs)
  from generated(2) have "\<forall>h\<in>set hs. \<exists>v. py_getitem h ''url'' = Inr v"
    by (rule generate_hotel_list_urls)
  then have "\<forall>h\<in>set (take MAX_CONCURRENT_REQUESTS hs). \<exists>v. py_getitem h ''url'' = Inr v"
    by (meson in_set_takeD)
  then have "\<exists>us. url_column (take MAX_CONCURRENT_REQUESTS hs) = Inr us" by (rule url_column_total)
  with generated(4) show ?thesis by auto
next
  case fallback
  have "\<forall>h\<in>set (take MAX_CONCURRENT_REQUESTS fallback_hotels). \<exists>v. py_getitem h ''url'' = Inr v"
    using fallback_hotels_urls by (meson in_set_takeD)
  then have "\<exists>us. url_column (take MAX_CONCURRENT_REQUESTS fallback_hotels) = Inr us"
    by (rule url_column_total)
  with fallback(3) show ?thesis by auto
qed

lemma generated_urls_no_key:
  assumes "get_openai_client w = Inl e"
  shows "generated_urls w loc n tr = (Inl e, tr)"
  using assms by (cases rule: generated_urls_cases [of w loc n tr]) simp_all

lemma collect_urls_with_key:
  assumes "get_openai_client w = Inr ()"
  shows "\<exists>us t. collect_urls w s loc n tr = (Inr us, t)"
proof (cases rule: collect_urls_cases [of w tr s loc n])
  case (stage3_raised res e t)
  with generated_urls_total [OF assms, of loc n "tr @ [Call (Crawl s), RawScan]"] show ?thesis by simp
qed (use generated_urls_total [OF assms] in auto)

lemma collect_urls_without_key:
  assumes "get_openai_client w = Inl e"
    and "\<not> (\<exists>res urls. service w tr (Crawl s) = Inr res \<and> structured_parse res = Inr urls \<and>
              (urls \<noteq> [] \<or> raw_scan w res \<noteq> []))"
  shows "fst (collect_urls w s loc n tr) = Inl e"
proof (cases rule: collect_urls_cases [of w tr s loc n])
  case (stage3_raised res e' t)
  with generated_urls_no_key [OF assms(1)] show ?thesis by simp
qed (use assms(2) generated_urls_no_key [OF assms(1)] in auto)

text \<open>
  Claim C6 fails on the code: without \<open>OPENAI_API_KEY\<close>, and with a crawl that fails,
  \<open>collect_urls\<close> raises the \<open>ValueError\<close> of \<open>get_openai_client\<close> to its caller. The
  two lemmas before say when: with the key, discovery always returns a list; without it,
  discovery raises whenever stages 1 and 2 give no URL.
\<close>

theorem discovery_raises_without_api_key:
  "fst (collect_urls offline_no_key ''https://www.top10hotels.com/'' ''worldwide'' 5 [])
     = Inl (ValueError ''OPENAI_API_KEY not found in environment variables'')"
  by code_simp

section \<open>Properties of the page collector and of the orchestrator\<close>







































end
